theory Spec2Isabelle
  imports Complex_Main "HOL-Library.Sublist" "HOL-Library.Char_ord"
begin

section \<open>The submission form of \<open>src/app/page.tsx\<close>\<close>

text \<open>
  The component \<open>Home\<close> keeps six pieces of React state and reads the three text inputs
  of its form through \<open>formRef\<close>. Its handlers are modelled as functions that return the
  calls they make, in program order: the state setters, the calls to the storage and
  table clients, and \<open>Await\<close> where an \<open>await\<close> suspends the handler. Running such a
  list over a state gives the state the component ends in; the states at the suspension
  points are the ones the component renders in between (the setter calls of one
  synchronous stretch take effect together).

  Strings are \<open>char list\<close>; every example used below is ASCII, where a \<open>char\<close> and a
  UTF-16 code unit coincide.
\<close>

subsection \<open>Data\<close>

text \<open>A browser \<open>File\<close>: the code reads \<open>file.name\<close> and \<open>file.type\<close> only.\<close>

record File =
  file_name :: string
  file_type :: string

text \<open>The values of the inputs \<open>name\<close>, \<open>email\<close> and \<open>message\<close> of the form.\<close>

record form =
  form_name :: string
  form_email :: string
  form_message :: string

text \<open>An element of \<open>uploadedFiles\<close>: \<open>{ name, url }\<close>.\<close>

record uploaded =
  up_name :: string
  up_url :: string

text \<open>The row passed to \<open>insert\<close>.\<close>

record submission =
  sub_name :: string
  sub_email :: string
  sub_message :: string
  sub_files :: "uploaded list"
  submitted_at :: string

text \<open>The \<open>useState\<close> cells (lines 12 to 17) and the form behind \<open>formRef\<close>.\<close>

record state =
  submitting :: bool
  success :: bool
  error :: string
  files :: "File list"
  filePreviews :: "string list"
  progress :: int
  formValues :: form

definition empty_form :: form where
  "empty_form = \<lparr>form_name = '''', form_email = '''', form_message = ''''\<rparr>"

definition init_state :: state where
  "init_state =
     \<lparr>submitting = False, success = False, error = '''', files = [], filePreviews = [],
      progress = 0, formValues = empty_form\<rparr>"

datatype action =
    SetSubmitting bool
  | SetSuccess bool
  | SetError string
  | SetFiles "File list"
  | SetFilePreviews "string list"
  | SetProgress int
  | Upload string File
  | GetPublicUrl string
  | Insert submission
  | FormReset
  | Await

fun apply_action :: "action \<Rightarrow> state \<Rightarrow> state" where
  "apply_action (SetSubmitting b) s = s\<lparr>submitting := b\<rparr>"
| "apply_action (SetSuccess b) s = s\<lparr>success := b\<rparr>"
| "apply_action (SetError m) s = s\<lparr>error := m\<rparr>"
| "apply_action (SetFiles fs) s = s\<lparr>files := fs\<rparr>"
| "apply_action (SetFilePreviews ps) s = s\<lparr>filePreviews := ps\<rparr>"
| "apply_action (SetProgress p) s = s\<lparr>progress := p\<rparr>"
| "apply_action (Upload k f) s = s"
| "apply_action (GetPublicUrl k) s = s"
| "apply_action (Insert r) s = s"
| "apply_action FormReset s = s\<lparr>formValues := empty_form\<rparr>"
| "apply_action Await s = s"

definition run :: "action list \<Rightarrow> state \<Rightarrow> state" where
  "run acts s = fold apply_action acts s"

text \<open>The states rendered while a handler runs: one at each suspension, one at its end.\<close>

fun renders :: "action list \<Rightarrow> state \<Rightarrow> state list" where
  "renders [] s = [s]"
| "renders (Await # acts) s = s # renders acts s"
| "renders (a # acts) s = renders acts (apply_action a s)"

text \<open>What a list of calls contains, by kind.\<close>

fun upload_of :: "action \<Rightarrow> (string \<times> File) list" where
  "upload_of (Upload k f) = [(k, f)]"
| "upload_of _ = []"

fun insert_of :: "action \<Rightarrow> submission list" where
  "insert_of (Insert r) = [r]"
| "insert_of _ = []"

fun progress_of :: "action \<Rightarrow> int list" where
  "progress_of (SetProgress p) = [p]"
| "progress_of _ = []"

definition uploads :: "action list \<Rightarrow> (string \<times> File) list" where
  "uploads acts = concat (map upload_of acts)"

definition inserts :: "action list \<Rightarrow> submission list" where
  "inserts acts = concat (map insert_of acts)"

definition progress_reports :: "action list \<Rightarrow> int list" where
  "progress_reports acts = concat (map progress_of acts)"

text \<open>
  The view the JSX selects (lines 169 to 295): the loading modal while \<open>submitting\<close>, the
  thank-you view when \<open>success\<close>, the form with the error line when \<open>error\<close> is not empty,
  the plain form otherwise.
\<close>

datatype UIState = Idle | Submitting int | Success | Error string

definition uiState :: "state \<Rightarrow> UIState" where
  "uiState s =
     (if submitting s then Submitting (progress s)
      else if success s then Success
      else if error s \<noteq> '''' then Error (error s)
      else Idle)"

subsection \<open>Thumbnails (lines 22 to 67)\<close>

text \<open>
  What the browser does with the media element: it fires \<open>onloadeddata\<close>/\<open>onload\<close>, and the
  canvas then gives the PNG data URL (\<open>None\<close> when \<open>getContext\<close> returns null), or it fires
  \<open>onerror\<close>.
\<close>

datatype media_event = Loaded "string option" | LoadError

datatype url_call = CreateObjectURL File | RevokeObjectURL File

text \<open>The value the promise resolves to, and the object URL calls made for the file.\<close>

definition generateThumbnail :: "File \<Rightarrow> media_event \<Rightarrow> string \<times> url_call list" where
  "generateThumbnail f ev =
     (if prefix ''video/'' (file_type f) then
        (case ev of
           Loaded ctx \<Rightarrow>
             ((case ctx of Some png \<Rightarrow> png | None \<Rightarrow> ''''),
              [CreateObjectURL f, RevokeObjectURL f])
         | LoadError \<Rightarrow> ('''', [CreateObjectURL f]))
      else if prefix ''image/'' (file_type f) then
        (case ev of
           Loaded ctx \<Rightarrow>
             ((case ctx of Some png \<Rightarrow> png | None \<Rightarrow> ''''),
              [CreateObjectURL f, RevokeObjectURL f])
         | LoadError \<Rightarrow> ('''', [CreateObjectURL f]))
      else ('''', []))"

subsection \<open>Selection (lines 69 to 87)\<close>

text \<open>\<open>media i\<close> is what happens to the media element of the \<open>i\<close>-th selected file.\<close>

definition handleFileChange :: "File list \<Rightarrow> (nat \<Rightarrow> media_event) \<Rightarrow> action list" where
  "handleFileChange selected media =
     (if length selected > 10 then
        [SetError ''You can upload a maximum of 10 files.'', SetFiles [], SetFilePreviews []]
      else
        [SetError '''', SetFiles selected, Await,
         SetFilePreviews
           (map (\<lambda>(i, f). fst (generateThumbnail f (media i))) (enumerate 0 selected))])"

text \<open>\<open>xs.filter((_, i) => i !== index)\<close>\<close>

definition filter_index :: "int \<Rightarrow> 'a list \<Rightarrow> 'a list" where
  "filter_index index xs = map snd (filter (\<lambda>(i, x). int i \<noteq> index) (enumerate 0 xs))"

definition removeFile :: "int \<Rightarrow> state \<Rightarrow> action list" where
  "removeFile index s =
     [SetFiles (filter_index index (files s)),
      SetFilePreviews (filter_index index (filePreviews s))]"

subsection \<open>Storage keys (lines 94 to 96, 116)\<close>

text \<open>The character class \<open>[a-zA-Z0-9._-]\<close>.\<close>

definition safe_char :: "char \<Rightarrow> bool" where
  "safe_char c =
     ((CHR ''a'' \<le> c \<and> c \<le> CHR ''z'') \<or> (CHR ''A'' \<le> c \<and> c \<le> CHR ''Z'') \<or>
      (CHR ''0'' \<le> c \<and> c \<le> CHR ''9'') \<or> c = CHR ''.'' \<or> c = CHR ''_'' \<or> c = CHR ''-'')"

definition sanitizeFileName :: "string \<Rightarrow> string" where
  "sanitizeFileName name = map (\<lambda>c. if safe_char c then c else CHR ''_'') name"

text \<open>
  \<open>Date.now()\<close> is a count of milliseconds since the epoch; the template literal writes it
  in decimal.
\<close>

definition digit_char :: "nat \<Rightarrow> char" where
  "digit_char d = ''0123456789'' ! d"

fun number_toString :: "nat \<Rightarrow> string" where
  "number_toString n =
     (if n < 10 then [digit_char n] else number_toString (n div 10) @ [digit_char (n mod 10)])"

declare number_toString.simps [simp del]

definition filePath :: "nat \<Rightarrow> string \<Rightarrow> string" where
  "filePath now name = number_toString now @ ''_'' @ sanitizeFileName name"

text \<open>
  The regular expression \<open>^\d+S$\<close> for a literal \<open>S\<close> that does not begin with a digit: the
  longest run of digits at the start is not empty and what follows it is \<open>S\<close>.
\<close>

definition isDigit :: "char \<Rightarrow> bool" where
  "isDigit c = (CHR ''0'' \<le> c \<and> c \<le> CHR ''9'')"

definition matches_digits_then :: "string \<Rightarrow> string \<Rightarrow> bool" where
  "matches_digits_then S key = (takeWhile isDigit key \<noteq> [] \<and> dropWhile isDigit key = S)"

subsection \<open>Progress (line 121): double precision arithmetic\<close>

text \<open>
  \<open>Math.round(((i + 1) / files.length) * 100)\<close> divides and multiplies in IEEE 754 binary64.
  A double is modelled by the rational it denotes; \<open>to_double\<close> rounds a rational to the
  nearest number with a 53-bit significand, ties to even (the values here lie between
  \<open>1/n\<close> and \<open>100\<close>, far from overflow and from the subnormal range). \<open>Math.round\<close> rounds
  to the nearest integer, a half upwards.
\<close>

function bit_length :: "int \<Rightarrow> int" where
  "bit_length n = (if n \<le> 0 then 0 else 1 + bit_length (n div 2))"
  by pat_completeness auto
termination
  by (relation "measure nat") auto

declare bit_length.simps [simp del]

text \<open>For \<open>x > 0\<close>, the \<open>e\<close> with \<open>2^e \<le> x < 2^(e+1)\<close>.\<close>

definition binade :: "rat \<Rightarrow> int" where
  "binade x =
     (let (p, q) = quotient_of x;
          d = bit_length p - bit_length q
      in if 2 powi d \<le> x then d else d - 1)"

definition round_half_even :: "rat \<Rightarrow> int" where
  "round_half_even x =
     (let f = \<lfloor>x\<rfloor>; r = x - of_int f
      in if r < 1 / 2 then f
         else if 1 / 2 < r then f + 1
         else if even f then f else f + 1)"

definition to_double :: "rat \<Rightarrow> rat" where
  "to_double x =
     (if x = 0 then 0
      else let e = binade \<bar>x\<bar> - 52
           in of_int (round_half_even (x / 2 powi e)) * 2 powi e)"

definition js_div :: "rat \<Rightarrow> rat \<Rightarrow> rat" where
  "js_div a b = to_double (a / b)"

definition js_mul :: "rat \<Rightarrow> rat \<Rightarrow> rat" where
  "js_mul a b = to_double (a * b)"

definition Math_round :: "rat \<Rightarrow> int" where
  "Math_round x = \<lfloor>x + 1 / 2\<rfloor>"

text \<open>The value passed to \<open>setProgress\<close> in iteration \<open>i\<close> of \<open>n\<close>.\<close>

definition progress_value :: "nat \<Rightarrow> nat \<Rightarrow> int" where
  "progress_value i n = Math_round (js_mul (js_div (of_nat (i + 1)) (of_nat n)) 100)"

subsection \<open>Submission (lines 99 to 147)\<close>

text \<open>
  What the handler gets from outside: the clock reading and the outcome of the upload in
  iteration \<open>i\<close>, the public URL of a key, the outcome of the insert, and the time stamp
  of the row.
\<close>

record world =
  Date_now :: "nat \<Rightarrow> nat"
  uploadError :: "nat \<Rightarrow> bool"
  publicUrl :: "string \<Rightarrow> string"
  insertError :: bool
  toISOString :: string

text \<open>
  The \<open>for\<close> loop from index \<open>i\<close> with \<open>uploadedFiles = acc\<close>: the calls made, the final
  \<open>uploadedFiles\<close>, and whether \<open>uploadError\<close> was thrown.
\<close>

function uploadLoop ::
  "world \<Rightarrow> File list \<Rightarrow> nat \<Rightarrow> uploaded list \<Rightarrow> action list \<times> uploaded list \<times> bool" where
  "uploadLoop w fs i acc =
     (if i < length fs then
        (let f = fs ! i;
             path = filePath (Date_now w i) (file_name f)
         in if uploadError w i then ([Upload path f, Await], acc, True)
            else
              (let acc' = acc @ [\<lparr>up_name = file_name f, up_url = publicUrl w path\<rparr>];
                   (rest, res, thrown) = uploadLoop w fs (i + 1) acc'
               in ([Upload path f, Await, GetPublicUrl path,
                    SetProgress (progress_value i (length fs))] @ rest, res, thrown)))
      else ([], acc, False))"
  by pat_completeness auto
termination
  by (relation "measure (\<lambda>(w, fs, i, acc). length fs - i)") auto

declare uploadLoop.simps [simp del]

definition catch_block :: "action list" where
  "catch_block =
     [SetSubmitting False, SetError ''Upload failed. Please try again.'', SetProgress 0]"

text \<open>\<open>e.preventDefault()\<close> touches the event only and is left out.\<close>

definition handleSubmit :: "world \<Rightarrow> state \<Rightarrow> action list" where
  "handleSubmit w s =
     [SetSubmitting True, SetError '''', SetSuccess False, SetProgress 0] @
     (let fm = formValues s;
          (trace, uploadedFiles, thrown) = uploadLoop w (files s) 0 []
      in trace @
         (if thrown then catch_block
          else
            [Insert \<lparr>sub_name = form_name fm, sub_email = form_email fm,
                     sub_message = form_message fm, sub_files = uploadedFiles,
                     submitted_at = toISOString w\<rparr>,
             Await] @
            (if insertError w then catch_block
             else [SetSubmitting False, SetSuccess True, FormReset, SetFiles [],
                   SetFilePreviews [], SetProgress 0])))"

subsection \<open>The component as a transition system\<close>

text \<open>
  The user's actions. The file input, the remove buttons (one for each preview) and the
  submit button are inside the form, which is rendered only while \<open>success\<close> is false; the
  submit button is disabled while \<open>submitting\<close>.
\<close>

datatype event = Select "File list" "nat \<Rightarrow> media_event" | Remove int | Submit world

fun enabled :: "event \<Rightarrow> state \<Rightarrow> bool" where
  "enabled (Select selected media) s = (\<not> success s)"
| "enabled (Remove index) s =
     (\<not> success s \<and> 0 \<le> index \<and> index < int (length (filePreviews s)))"
| "enabled (Submit w) s = (\<not> success s \<and> \<not> submitting s)"

fun handler :: "event \<Rightarrow> state \<Rightarrow> action list" where
  "handler (Select selected media) s = handleFileChange selected media"
| "handler (Remove index) s = removeFile index s"
| "handler (Submit w) s = handleSubmit w s"

text \<open>
  Some of the states the component gets into. \<open>settled\<close>: the states between user
  actions in the runs where every handler has come to its end before the next action
  (typing into the form changes \<open>formValues\<close> only). \<open>reachable\<close>: those states and the
  ones rendered while such a handler is suspended. The component has more runs than
  these, since nothing stops a user action while a handler is suspended; \<open>runs\<close> below
  has them all, and \<open>settled\<close> and \<open>reachable\<close> serve only to show that a given state
  does occur.
\<close>

inductive settled :: "state \<Rightarrow> bool" where
  settled_init: "settled init_state"
| settled_typing: "settled s \<Longrightarrow> \<not> success s \<Longrightarrow> settled (s\<lparr>formValues := fm\<rparr>)"
| settled_step: "settled s \<Longrightarrow> enabled ev s \<Longrightarrow> settled (run (handler ev s) s)"

inductive reachable :: "state \<Rightarrow> bool" where
  reachable_settled: "settled s \<Longrightarrow> reachable s"
| reachable_render:
    "settled s \<Longrightarrow> enabled ev s \<Longrightarrow> s' \<in> set (renders (handler ev s) s) \<Longrightarrow> reachable s'"

subsection \<open>Handlers that overlap\<close>

text \<open>
  An \<open>await\<close> gives control back to the browser. The file input and the remove buttons
  stay in place meanwhile, so a user action can start another handler before the
  suspended one goes on. A configuration is the React state together with the calls that
  each suspended handler has still to make.
\<close>

record config =
  current :: state
  suspended :: "action list list"

text \<open>Making calls up to the next \<open>await\<close>: the state then, and the calls left, if any.\<close>

fun proceed :: "action list \<Rightarrow> state \<Rightarrow> state \<times> action list option" where
  "proceed [] s = (s, None)"
| "proceed (Await # acts) s = (s, Some acts)"
| "proceed (a # acts) s = proceed acts (apply_action a s)"

text \<open>A handler starts; if it suspends, the rest of it waits.\<close>

definition start :: "action list \<Rightarrow> config \<Rightarrow> config" where
  "start acts c =
     (case proceed acts (current c) of
        (s', None) \<Rightarrow> c\<lparr>current := s'\<rparr>
      | (s', Some rest) \<Rightarrow> c\<lparr>current := s', suspended := suspended c @ [rest]\<rparr>)"

text \<open>The \<open>k\<close>-th suspended handler goes on, to its next \<open>await\<close> or to its end.\<close>

definition resume :: "nat \<Rightarrow> config \<Rightarrow> config" where
  "resume k c =
     (case proceed (suspended c ! k) (current c) of
        (s', None) \<Rightarrow>
          \<lparr>current = s', suspended = take k (suspended c) @ drop (Suc k) (suspended c)\<rparr>
      | (s', Some rest) \<Rightarrow> \<lparr>current = s', suspended = (suspended c)[k := rest]\<rparr>)"

definition init_config :: config where
  "init_config = \<lparr>current = init_state, suspended = []\<rparr>"

text \<open>
  The runs of the component: a handler is started by a user action that the rendered
  state offers, with the state it then sees, and suspended handlers go on in any order.
\<close>

inductive runs :: "config \<Rightarrow> bool" where
  runs_init: "runs init_config"
| runs_typing:
    "runs c \<Longrightarrow> \<not> success (current c) \<Longrightarrow>
     runs (c\<lparr>current := (current c)\<lparr>formValues := fm\<rparr>\<rparr>)"
| runs_action:
    "runs c \<Longrightarrow> enabled ev (current c) \<Longrightarrow> runs (start (handler ev (current c)) c)"
| runs_resume: "runs c \<Longrightarrow> k < length (suspended c) \<Longrightarrow> runs (resume k c)"

subsection \<open>Example inputs\<close>

definition photo :: File where
  "photo = \<lparr>file_name = ''my photo (1).MOV'', file_type = ''video/quicktime''\<rparr>"

definition picture :: File where
  "picture = \<lparr>file_name = ''cat.png'', file_type = ''image/png''\<rparr>"

definition memo :: File where
  "memo = \<lparr>file_name = ''notes.txt'', file_type = ''text/plain''\<rparr>"

definition all_loaded :: "nat \<Rightarrow> media_event" where
  "all_loaded i = Loaded (Some ''data:image/png;base64,AAAA'')"

definition ada_form :: form where
  "ada_form = \<lparr>form_name = ''Ada'', form_email = ''ada@x.com'', form_message = ''Hello''\<rparr>"

definition clock :: "nat \<Rightarrow> nat" where
  "clock i = 1700000000000 + i"

definition bucket_url :: "string \<Rightarrow> string" where
  "bucket_url path = ''https://example.supabase.co/storage/v1/object/public/webform-uploads/'' @ path"

definition never :: "nat \<Rightarrow> bool" where
  "never i = False"

definition second_only :: "nat \<Rightarrow> bool" where
  "second_only i = (i = 1)"

definition world_ok :: world where
  "world_ok =
     \<lparr>Date_now = clock, uploadError = never, publicUrl = bucket_url, insertError = False,
      toISOString = ''2023-11-14T22:13:20.000Z''\<rparr>"

definition world_second_fails :: world where
  "world_second_fails =
     \<lparr>Date_now = clock, uploadError = second_only, publicUrl = bucket_url,
      insertError = False, toISOString = ''2023-11-14T22:13:20.000Z''\<rparr>"

text \<open>States used as examples below.\<close>

definition three_selected :: state where
  "three_selected =
     init_state\<lparr>files := [photo, picture, memo], filePreviews := ['''', '''', '''']\<rparr>"

definition ada_typed :: state where
  "ada_typed = init_state\<lparr>formValues := ada_form\<rparr>"

definition capacity_error :: state where
  "capacity_error = run (handleFileChange (replicate 11 picture) all_loaded) init_state"

definition one_selected :: state where
  "one_selected = run (handleFileChange [memo] all_loaded) init_state"

text \<open>The state rendered while the thumbnails of a selection are still being made.\<close>

definition selecting_one :: state where
  "selecting_one = hd (renders (handleFileChange [picture] all_loaded) init_state)"


text \<open>
  Two selections that overlap: a video is selected; while its thumbnail is being made,
  two text files are selected, and that handler comes to its end (their thumbnails need
  no loading); then the video has loaded and the first handler goes on.
\<close>

definition video_pending :: config where
  "video_pending = start (handler (Select [photo] all_loaded) init_state) init_config"

definition both_pending :: config where
  "both_pending =
     start (handler (Select [memo, memo] all_loaded) (current video_pending)) video_pending"

definition second_done :: config where
  "second_done = resume 1 both_pending"

definition overlapped :: config where
  "overlapped = resume 0 second_done"

text \<open>
  A removal that overlaps a selection: after \<open>one_selected\<close>, a video and a picture are
  selected; while their thumbnails are being made the tile of the old preview is
  removed; then the media have loaded and the selection handler goes on.
\<close>

definition pair_pending :: config where
  "pair_pending =
     start (handler (Select [photo, picture] all_loaded) one_selected)
       \<lparr>current = one_selected, suspended = []\<rparr>"

definition removed_meanwhile :: config where
  "removed_meanwhile = start (handler (Remove 0) (current pair_pending)) pair_pending"

definition removal_overlapped :: config where
  "removal_overlapped = resume 0 removed_meanwhile"

section \<open>Storage keys\<close>

lemma safe_char_underscore: "safe_char (CHR ''_'')"
  by (simp add: safe_char_def)

text \<open>
  C9. Sanitizing a file name twice gives the same string as sanitizing it once: for
  every string \<open>s\<close>, \<open>sanitizeFileName (sanitizeFileName s) = sanitizeFileName s\<close>.
\<close>

theorem sanitizeFileName_idempotent:
  "sanitizeFileName (sanitizeFileName s) = sanitizeFileName s"
  by (simp add: sanitizeFileName_def safe_char_underscore)

lemma sanitize_my_photo: "sanitizeFileName ''my photo (1).MOV'' = ''my_photo__1_.MOV''"
  by (simp add: sanitizeFileName_def safe_char_def)

lemma isDigit_digit_char: "d < 10 \<Longrightarrow> isDigit (digit_char d)"
proof -
  assume "d < 10"
  then have "d \<in> {0, 1, 2, 3, 4, 5, 6, 7, 8, 9}" by auto
  then show ?thesis
    by (auto simp add: isDigit_def digit_char_def)
qed

lemma number_toString_digits: "list_all isDigit (number_toString n)"
  by (induction n rule: number_toString.induct)
     (subst number_toString.simps, simp add: isDigit_digit_char)

lemma number_toString_nonempty: "number_toString n \<noteq> []"
  by (subst number_toString.simps) simp

lemma not_isDigit_underscore: "\<not> isDigit (CHR ''_'')"
  by (simp add: isDigit_def)

lemma takeWhile_digits:
  "list_all isDigit ds \<Longrightarrow> takeWhile isDigit (ds @ CHR ''_'' # rest) = ds"
  by (induction ds) (simp_all add: not_isDigit_underscore)

lemma dropWhile_digits:
  "list_all isDigit ds \<Longrightarrow> dropWhile isDigit (ds @ CHR ''_'' # rest) = CHR ''_'' # rest"
  by (induction ds) (simp_all add: not_isDigit_underscore)

text \<open>A key matches \<open>^\d+S$\<close> exactly when \<open>S\<close> is \<open>_\<close> followed by the sanitized name.\<close>

lemma matches_filePath:
  "matches_digits_then S (filePath now name) \<longleftrightarrow> S = CHR ''_'' # sanitizeFileName name"
  by (auto simp add: matches_digits_then_def filePath_def takeWhile_digits dropWhile_digits
        number_toString_digits number_toString_nonempty)

text \<open>
  C3, as stated: the key of \<open>my photo (1).MOV\<close> matches \<open>^\d+_my_photo__1__\.MOV$\<close>. It
  does not: the closing parenthesis is the only character between \<open>1\<close> and the dot, so
  one underscore stands there, not two. The key generated at clock reading
  \<open>1700000000000\<close> does not match.
\<close>

theorem key_my_photo_two_underscores_counterexample:
  "\<not> matches_digits_then ''_my_photo__1__.MOV'' (filePath 1700000000000 ''my photo (1).MOV'')"
  by (simp add: matches_filePath sanitize_my_photo)

text \<open>
  C3, amended: at every clock reading the key of \<open>my photo (1).MOV\<close> matches
  \<open>^\d+_my_photo__1_\.MOV$\<close>.
\<close>

theorem key_my_photo_matches:
  "matches_digits_then ''_my_photo__1_.MOV'' (filePath now ''my photo (1).MOV'')"
  by (simp add: matches_filePath sanitize_my_photo)

section \<open>Progress\<close>

text \<open>
  The rounding at known values: the double nearest to \<open>0.1\<close> is \<open>0x3FB999999999999A\<close>,
  and \<open>(1 / 3) * 100\<close> is the double printed as \<open>33.33333333333333\<close>, just below \<open>100 / 3\<close>.
\<close>

lemma to_double_tenth: "to_double (1 / 10) = 3602879701896397 / 2 ^ 55"
  by code_simp

lemma js_div_third: "js_div 1 3 = 6004799503160661 / 2 ^ 54"
  by code_simp

lemma js_mul_third_100: "js_mul (js_div 1 3) 100 = 2345624805922133 / 2 ^ 46"
  by code_simp

lemma progress_value_0_3: "progress_value 0 3 = 33"
  by code_simp

lemma progress_value_1_3: "progress_value 1 3 = 67"
  by code_simp

lemma progress_value_2_3: "progress_value 2 3 = 100"
  by code_simp

lemma progress_value_Suc:
  "progress_value 0 (Suc (Suc (Suc 0))) = 33"
  "progress_value (Suc 0) (Suc (Suc (Suc 0))) = 67"
  "progress_value (Suc (Suc 0)) (Suc (Suc (Suc 0))) = 100"
  using progress_value_0_3 progress_value_1_3 progress_value_2_3
  by (simp_all add: numeral_2_eq_2 numeral_3_eq_3)

lemma length_3E:
  assumes "length fs = 3"
  obtains a b c where "fs = [a, b, c]"
  using assms by (auto simp add: numeral_3_eq_3 length_Suc_conv)

text \<open>The loop over three files whose uploads all succeed.\<close>

lemma uploadLoop_three_ok:
  assumes "\<not> uploadError w 0" "\<not> uploadError w 1" "\<not> uploadError w 2"
  shows "uploadLoop w [a, b, c] 0 [] =
     ([Upload (filePath (Date_now w 0) (file_name a)) a, Await,
       GetPublicUrl (filePath (Date_now w 0) (file_name a)), SetProgress 33,
       Upload (filePath (Date_now w 1) (file_name b)) b, Await,
       GetPublicUrl (filePath (Date_now w 1) (file_name b)), SetProgress 67,
       Upload (filePath (Date_now w 2) (file_name c)) c, Await,
       GetPublicUrl (filePath (Date_now w 2) (file_name c)), SetProgress 100],
      [\<lparr>up_name = file_name a, up_url = publicUrl w (filePath (Date_now w 0) (file_name a))\<rparr>,
       \<lparr>up_name = file_name b, up_url = publicUrl w (filePath (Date_now w 1) (file_name b))\<rparr>,
       \<lparr>up_name = file_name c, up_url = publicUrl w (filePath (Date_now w 2) (file_name c))\<rparr>],
      False)"
  using assms
  by (simp add: uploadLoop.simps Let_def progress_value_Suc numeral_2_eq_2)

lemma world_ok_simps:
  "uploadError world_ok i = False" "insertError world_ok = False"
  by (simp_all add: world_ok_def never_def)

text \<open>
  C1, as stated: three files that all upload report the progress values 34, 67, 100. The
  first value is \<open>Math.round((1 / 3) * 100)\<close>, and \<open>33.33\<dots>\<close> rounds to 33, not 34.
\<close>

theorem progress_three_files_counterexample:
  "progress_reports (fst (uploadLoop world_ok [photo, picture, memo] 0 [])) \<noteq> [34, 67, 100]"
  by (simp add: uploadLoop_three_ok world_ok_simps progress_reports_def)

text \<open>
  C1, amended: for an upload of exactly three files that all succeed, the progress values
  reported by the loop, one after each file, are exactly 33, 67, 100.
\<close>

theorem progress_three_files:
  assumes "length fs = 3"
    and "\<not> uploadError w 0" and "\<not> uploadError w 1" and "\<not> uploadError w 2"
  shows "progress_reports (fst (uploadLoop w fs 0 [])) = [33, 67, 100]"
proof -
  from assms(1) obtain a b c where fs: "fs = [a, b, c]" by (rule length_3E)
  show ?thesis
    unfolding fs uploadLoop_three_ok [OF assms(2-4)]
    by (simp add: progress_reports_def)
qed

text \<open>The amended C1 at the files \<open>photo\<close>, \<open>picture\<close>, \<open>memo\<close> and a world without failures.\<close>

theorem progress_three_files_witness:
  "length [photo, picture, memo] = 3 \<and> \<not> uploadError world_ok 0 \<and>
   \<not> uploadError world_ok 1 \<and> \<not> uploadError world_ok 2 \<and>
   progress_reports (fst (uploadLoop world_ok [photo, picture, memo] 0 [])) = [33, 67, 100]"
proof -
  have h: "length [photo, picture, memo] = 3"
    by simp
  have u: "\<not> uploadError world_ok 0" "\<not> uploadError world_ok 1" "\<not> uploadError world_ok 2"
    by (simp_all add: world_ok_simps)
  show ?thesis
    using h u progress_three_files [OF h u] by blast
qed

section \<open>Submission\<close>

text \<open>The loop over three files when the second upload fails.\<close>

lemma uploadLoop_second_fails:
  assumes "\<not> uploadError w 0" "uploadError w 1"
  shows "uploadLoop w [a, b, c] 0 [] =
     ([Upload (filePath (Date_now w 0) (file_name a)) a, Await,
       GetPublicUrl (filePath (Date_now w 0) (file_name a)), SetProgress 33,
       Upload (filePath (Date_now w 1) (file_name b)) b, Await],
      [\<lparr>up_name = file_name a, up_url = publicUrl w (filePath (Date_now w 0) (file_name a))\<rparr>],
      True)"
  using assms
  by (simp add: uploadLoop.simps Let_def progress_value_Suc)

text \<open>
  C4. When three files are selected and the upload of the second fails, \<open>uploadedFiles\<close>
  holds exactly one record (that of the first file), uploads were attempted for the first
  and the second file only, no insert is made, and the handler ends in the error view
  with the message \<open>Upload failed. Please try again.\<close> and progress 0.
\<close>

theorem second_upload_fails:
  assumes "files s = [a, b, c]" and "\<not> uploadError w 0" and "uploadError w 1"
  shows "fst (snd (uploadLoop w (files s) 0 [])) =
           [\<lparr>up_name = file_name a,
             up_url = publicUrl w (filePath (Date_now w 0) (file_name a))\<rparr>] \<and>
         uploads (handleSubmit w s) =
           [(filePath (Date_now w 0) (file_name a), a),
            (filePath (Date_now w 1) (file_name b), b)] \<and>
         inserts (handleSubmit w s) = [] \<and>
         uiState (run (handleSubmit w s) s) = Error ''Upload failed. Please try again.'' \<and>
         progress (run (handleSubmit w s) s) = 0"
  unfolding handleSubmit_def assms(1) uploadLoop_second_fails [OF assms(2,3)]
  by (simp add: uploads_def inserts_def catch_block_def run_def uiState_def)

text \<open>C4 at the state \<open>three_selected\<close> and a world where only the second upload fails.\<close>

theorem second_upload_fails_witness:
  "files three_selected = [photo, picture, memo] \<and> \<not> uploadError world_second_fails 0 \<and>
   uploadError world_second_fails 1 \<and>
   length (fst (snd (uploadLoop world_second_fails (files three_selected) 0 []))) = 1 \<and>
   map snd (uploads (handleSubmit world_second_fails three_selected)) = [photo, picture] \<and>
   inserts (handleSubmit world_second_fails three_selected) = [] \<and>
   uiState (run (handleSubmit world_second_fails three_selected) three_selected) =
     Error ''Upload failed. Please try again.'' \<and>
   progress (run (handleSubmit world_second_fails three_selected) three_selected) = 0"
proof -
  have h1: "files three_selected = [photo, picture, memo]"
    by (simp add: three_selected_def)
  have h2: "\<not> uploadError world_second_fails 0"
    by (simp add: world_second_fails_def second_only_def)
  have h3: "uploadError world_second_fails 1"
    by (simp add: world_second_fails_def second_only_def)
  note r = second_upload_fails [OF h1 h2 h3]
  have "length (fst (snd (uploadLoop world_second_fails (files three_selected) 0 []))) = 1"
    by (simp add: r)
  moreover
  have "map snd (uploads (handleSubmit world_second_fails three_selected)) = [photo, picture]"
    by (simp add: r)
  ultimately show ?thesis
    using h1 h2 h3 r by blast
qed

lemma uploadLoop_none: "uploadLoop w [] 0 [] = ([], [], False)"
  by (simp add: uploadLoop.simps)

text \<open>
  C8. A submit with name \<open>Ada\<close>, email \<open>ada@x.com\<close>, message \<open>Hello\<close> and no selected
  file, from the idle view and with a successful insert, makes exactly one insert, whose
  row has an empty \<open>files\<close>, and no upload; the views shown are idle, submitting,
  success; at the end the form, the selection and the previews are empty and progress
  is 0.
\<close>

theorem submit_without_files:
  assumes "files s = []" and "formValues s = ada_form" and "uiState s = Idle"
    and "\<not> insertError w"
  shows "inserts (handleSubmit w s) =
           [\<lparr>sub_name = ''Ada'', sub_email = ''ada@x.com'', sub_message = ''Hello'',
             sub_files = [], submitted_at = toISOString w\<rparr>] \<and>
         uploads (handleSubmit w s) = [] \<and>
         map uiState (s # renders (handleSubmit w s) s) = [Idle, Submitting 0, Success] \<and>
         formValues (run (handleSubmit w s) s) = empty_form \<and>
         files (run (handleSubmit w s) s) = [] \<and>
         filePreviews (run (handleSubmit w s) s) = [] \<and>
         progress (run (handleSubmit w s) s) = 0"
  unfolding handleSubmit_def assms(1) uploadLoop_none
  using assms(2-4)
  by (simp add: inserts_def uploads_def run_def uiState_def ada_form_def)

text \<open>C8 at the initial state with the form filled in.\<close>

theorem submit_without_files_witness:
  "files ada_typed = [] \<and> formValues ada_typed = ada_form \<and> uiState ada_typed = Idle \<and>
   \<not> insertError world_ok \<and>
   length (inserts (handleSubmit world_ok ada_typed)) = 1 \<and>
   map uiState (ada_typed # renders (handleSubmit world_ok ada_typed) ada_typed) =
     [Idle, Submitting 0, Success]"
proof -
  have h1: "files ada_typed = []"
    by (simp add: ada_typed_def init_state_def)
  have h2: "formValues ada_typed = ada_form"
    by (simp add: ada_typed_def)
  have h3: "uiState ada_typed = Idle"
    by (simp add: ada_typed_def init_state_def uiState_def)
  have h4: "\<not> insertError world_ok"
    by (simp add: world_ok_simps)
  note r = submit_without_files [OF h1 h2 h3 h4]
  have "length (inserts (handleSubmit world_ok ada_typed)) = 1"
    by (simp add: r)
  then show ?thesis
    using h1 h2 h3 h4 r by blast
qed

section \<open>Selection\<close>

text \<open>
  C5. A selection of more than ten files, whatever the files are, makes exactly three
  calls and leaves an empty file list, an empty preview list and the capacity message.
\<close>

theorem too_many_files:
  assumes "10 < length selected"
  shows "handleFileChange selected media =
           [SetError ''You can upload a maximum of 10 files.'', SetFiles [],
            SetFilePreviews []] \<and>
         files (run (handleFileChange selected media) s) = [] \<and>
         filePreviews (run (handleFileChange selected media) s) = [] \<and>
         error (run (handleFileChange selected media) s) =
           ''You can upload a maximum of 10 files.''"
  using assms by (simp add: handleFileChange_def run_def)

text \<open>C5 at eleven pictures selected over three files.\<close>

theorem too_many_files_witness:
  "10 < length (replicate 11 picture) \<and>
   files (run (handleFileChange (replicate 11 picture) all_loaded) three_selected) = [] \<and>
   filePreviews (run (handleFileChange (replicate 11 picture) all_loaded) three_selected) = [] \<and>
   error (run (handleFileChange (replicate 11 picture) all_loaded) three_selected) =
     ''You can upload a maximum of 10 files.''"
proof -
  have h: "10 < length (replicate 11 picture)"
    by simp
  show ?thesis
    using h too_many_files [OF h, of all_loaded three_selected] by blast
qed

text \<open>
  C10. A selection of at most ten files first sets the error to the empty string and
  then stores the selection; the error is empty in every state rendered from then on,
  whatever it was before.
\<close>

theorem selection_clears_error:
  assumes "length selected \<le> 10"
  shows "(\<exists>rest. handleFileChange selected media = SetError '''' # SetFiles selected # rest) \<and>
         list_all (\<lambda>s'. error s' = '''') (renders (handleFileChange selected media) s) \<and>
         error (run (handleFileChange selected media) s) = ''''"
  using assms by (simp add: handleFileChange_def run_def)

text \<open>C10 at a selection of two files made while the capacity message is shown.\<close>

theorem selection_clears_error_witness:
  "length [photo, picture] \<le> 10 \<and>
   error capacity_error = ''You can upload a maximum of 10 files.'' \<and>
   list_all (\<lambda>s'. error s' = '''')
     (renders (handleFileChange [photo, picture] all_loaded) capacity_error) \<and>
   error (run (handleFileChange [photo, picture] all_loaded) capacity_error) = ''''"
proof -
  have h: "length [photo, picture] \<le> 10"
    by simp
  have e: "error capacity_error = ''You can upload a maximum of 10 files.''"
    by (simp add: capacity_error_def handleFileChange_def run_def)
  show ?thesis
    using h e selection_clears_error [OF h, of all_loaded capacity_error] by blast
qed

section \<open>Thumbnails\<close>

text \<open>When the media loads, the object URL is created and then revoked.\<close>

lemma generateThumbnail_loaded:
  "prefix ''video/'' (file_type f) \<or> prefix ''image/'' (file_type f) \<Longrightarrow>
   snd (generateThumbnail f (Loaded ctx)) = [CreateObjectURL f, RevokeObjectURL f]"
  by (auto simp add: generateThumbnail_def)

text \<open>When it fails to load, the promise resolves to the empty string and nothing is revoked.\<close>

lemma generateThumbnail_failed:
  "prefix ''video/'' (file_type f) \<or> prefix ''image/'' (file_type f) \<Longrightarrow>
   generateThumbnail f LoadError = ('''', [CreateObjectURL f])"
  by (auto simp add: generateThumbnail_def)

text \<open>
  C6 says that the object URL made for a video or an image is revoked on every path, the
  failing one too. For the video \<open>photo\<close> and the image \<open>picture\<close>, when the media element
  fires \<open>onerror\<close> the only object URL call is the creation.
\<close>

theorem generateThumbnail_load_error:
  "generateThumbnail photo LoadError = ('''', [CreateObjectURL photo]) \<and>
   generateThumbnail picture LoadError = ('''', [CreateObjectURL picture])"
  by (simp add: generateThumbnail_def photo_def picture_def)

section \<open>Removal\<close>

lemma filter_enumerate:
  "map snd (filter (\<lambda>(i, x). int i \<noteq> index) (enumerate k xs)) =
     (if int k \<le> index \<and> index < int (k + length xs)
      then take (nat index - k) xs @ drop (Suc (nat index - k)) xs
      else xs)"
proof (induction xs arbitrary: k)
  case Nil
  then show ?case by simp
next
  case (Cons x xs)
  show ?case
  proof (cases "int k = index")
    case True
    then show ?thesis
      using Cons [of "Suc k"] by auto
  next
    case False
    have shift: "Suc (nat index - Suc k) = nat index - k" if "int k < index"
      using that by linarith
    show ?thesis
    proof (cases "int k < index")
      case True
      then show ?thesis
        using Cons [of "Suc k"] shift by (auto simp add: take_Cons' drop_Cons')
    next
      case below: False
      with False Cons [of "Suc k"] show ?thesis by auto
    qed
  qed
qed

lemma filter_index_eq:
  "filter_index index xs =
     (if 0 \<le> index \<and> index < int (length xs)
      then take (nat index) xs @ drop (Suc (nat index)) xs
      else xs)"
  unfolding filter_index_def filter_enumerate by simp

lemma length_filter_index:
  "length (filter_index index xs) =
     (if 0 \<le> index \<and> index < int (length xs) then length xs - 1 else length xs)"
  unfolding filter_index_eq by auto


text \<open>
  In \<open>take i xs @ drop (Suc i) xs\<close> the entries below \<open>i\<close> keep their place and the
  entries above \<open>i\<close> move down by one.
\<close>

lemma take_drop_shift:
  "i < length xs \<Longrightarrow> j < length xs - 1 \<Longrightarrow>
   (take i xs @ drop (Suc i) xs) ! j = (if j < i then xs ! j else xs ! Suc j)"
  by (auto simp add: nth_append min_def)

lemma settled_one_selected: "settled one_selected"
proof -
  have "enabled (Select [memo] all_loaded) init_state"
    by (simp add: init_state_def)
  from settled_step [OF settled_init this] show ?thesis
    by (simp add: one_selected_def)
qed





section \<open>Overlapping handlers\<close>

subsection \<open>The states of \<open>settled\<close> and \<open>reachable\<close> occur in the runs of the component\<close>

lemma proceed_None: "proceed acts s = (s', None) \<Longrightarrow> s' = run acts s"
  by (induction acts s rule: proceed.induct) (simp_all add: run_def)

lemma proceed_Some:
  "proceed acts s = (s', Some rest) \<Longrightarrow> run acts s = run rest s' \<and> length rest < length acts"
  by (induction acts s rule: proceed.induct) (auto simp add: run_def)

lemma renders_proceed_None: "proceed acts s = (s1, None) \<Longrightarrow> renders acts s = [s1]"
  by (induction acts s rule: proceed.induct) simp_all

lemma renders_proceed_Some:
  "proceed acts s = (s1, Some rest) \<Longrightarrow> renders acts s = s1 # renders rest s1"
  by (induction acts s rule: proceed.induct) simp_all

text \<open>A single suspended handler may go on to its end with nothing in between.\<close>

lemma runs_finish:
  "runs \<lparr>current = s, suspended = [acts]\<rparr> \<Longrightarrow> runs \<lparr>current = run acts s, suspended = []\<rparr>"
proof (induction "length acts" arbitrary: acts s rule: less_induct)
  case less
  have step: "runs (resume 0 \<lparr>current = s, suspended = [acts]\<rparr>)"
    using runs_resume [OF less.prems, of 0] by simp
  obtain s' r where p: "proceed acts s = (s', r)"
    by (cases "proceed acts s") auto
  show ?case
  proof (cases r)
    case None
    with p step proceed_None [of acts s s'] show ?thesis
      by (simp add: resume_def)
  next
    case (Some rest)
    with p proceed_Some [of acts s s' rest]
    have eq: "run acts s = run rest s'" and shorter: "length rest < length acts"
      by simp_all
    from p Some step have "runs \<lparr>current = s', suspended = [rest]\<rparr>"
      by (simp add: resume_def)
    from less.hyps [OF shorter this] eq show ?thesis
      by simp
  qed
qed

lemma runs_atomic:
  assumes "runs \<lparr>current = s, suspended = []\<rparr>" and "enabled ev s"
  shows "runs \<lparr>current = run (handler ev s) s, suspended = []\<rparr>"
proof -
  let ?acts = "handler ev s"
  have step: "runs (start ?acts \<lparr>current = s, suspended = []\<rparr>)"
    using runs_action [OF assms(1), of ev] assms(2) by simp
  obtain s' r where p: "proceed ?acts s = (s', r)"
    by (cases "proceed ?acts s") auto
  show ?thesis
  proof (cases r)
    case None
    with p step proceed_None [of ?acts s s'] show ?thesis
      by (simp add: start_def)
  next
    case (Some rest)
    with p step have "runs \<lparr>current = s', suspended = [rest]\<rparr>"
      by (simp add: start_def)
    from runs_finish [OF this] p Some proceed_Some [of ?acts s s' rest] show ?thesis
      by simp
  qed
qed

lemma settled_runs: "settled s \<Longrightarrow> runs \<lparr>current = s, suspended = []\<rparr>"
proof (induction rule: settled.induct)
  case settled_init
  show ?case using runs_init by (simp add: init_config_def)
next
  case (settled_typing s fm)
  from runs_typing [OF settled_typing.IH, of fm] settled_typing.hyps show ?case
    by simp
next
  case (settled_step s ev)
  then show ?case by (simp add: runs_atomic)
qed

lemma runs_renders:
  "runs \<lparr>current = s, suspended = [acts]\<rparr> \<Longrightarrow> s' \<in> set (renders acts s) \<Longrightarrow>
   \<exists>c. runs c \<and> current c = s'"
proof (induction "length acts" arbitrary: acts s rule: less_induct)
  case less
  have step: "runs (resume 0 \<lparr>current = s, suspended = [acts]\<rparr>)"
    using runs_resume [OF less.prems(1), of 0] by simp
  obtain s1 r where p: "proceed acts s = (s1, r)"
    by (cases "proceed acts s") auto
  show ?case
  proof (cases r)
    case None
    with p step have "runs \<lparr>current = s1, suspended = []\<rparr>"
      by (simp add: resume_def)
    moreover from p None less.prems(2) have "s' = s1"
      by (simp add: renders_proceed_None)
    ultimately show ?thesis
      by (intro exI [of _ "\<lparr>current = s1, suspended = []\<rparr>"]) simp
  next
    case (Some rest)
    with p step have next_runs: "runs \<lparr>current = s1, suspended = [rest]\<rparr>"
      by (simp add: resume_def)
    from p Some have shorter: "length rest < length acts"
      using proceed_Some by blast
    from p Some less.prems(2) have "s' = s1 \<or> s' \<in> set (renders rest s1)"
      by (simp add: renders_proceed_Some)
    then show ?thesis
    proof
      assume "s' = s1"
      with next_runs show ?thesis
        by (intro exI [of _ "\<lparr>current = s1, suspended = [rest]\<rparr>"]) simp
    next
      assume "s' \<in> set (renders rest s1)"
      from less.hyps [OF shorter next_runs this] show ?thesis .
    qed
  qed
qed

lemma reachable_runs: "reachable s \<Longrightarrow> \<exists>c. runs c \<and> current c = s"
proof (induction rule: reachable.induct)
  case (reachable_settled s)
  then show ?case
    using settled_runs by (intro exI [of _ "\<lparr>current = s, suspended = []\<rparr>"]) simp
next
  case (reachable_render s ev s')
  let ?acts = "handler ev s"
  have rest_runs: "runs \<lparr>current = s, suspended = []\<rparr>"
    using reachable_render(1) by (rule settled_runs)
  have step: "runs (start ?acts \<lparr>current = s, suspended = []\<rparr>)"
    using runs_action [OF rest_runs, of ev] reachable_render(2) by simp
  obtain s1 r where p: "proceed ?acts s = (s1, r)"
    by (cases "proceed ?acts s") auto
  show ?case
  proof (cases r)
    case None
    with p step have "runs \<lparr>current = s1, suspended = []\<rparr>"
      by (simp add: start_def)
    moreover from p None reachable_render(3) have "s' = s1"
      by (simp add: renders_proceed_None)
    ultimately show ?thesis
      by (intro exI [of _ "\<lparr>current = s1, suspended = []\<rparr>"]) simp
  next
    case (Some rest)
    with p step have next_runs: "runs \<lparr>current = s1, suspended = [rest]\<rparr>"
      by (simp add: start_def)
    from p Some reachable_render(3) have "s' = s1 \<or> s' \<in> set (renders rest s1)"
      by (simp add: renders_proceed_Some)
    then show ?thesis
    proof
      assume "s' = s1"
      with next_runs show ?thesis
        by (intro exI [of _ "\<lparr>current = s1, suspended = [rest]\<rparr>"]) simp
    next
      assume "s' \<in> set (renders rest s1)"
      with next_runs show ?thesis by (rule runs_renders)
    qed
  qed
qed

subsection \<open>While a selection is suspended\<close>

lemma reachable_selecting_one: "reachable selecting_one"
proof -
  have e: "enabled (Select [picture] all_loaded) init_state"
    by (simp add: init_state_def)
  have "selecting_one \<in>
      set (renders (handler (Select [picture] all_loaded) init_state) init_state)"
    by (simp add: selecting_one_def handleFileChange_def)
  with settled_init e show ?thesis
    by (rule reachable_render)
qed

text \<open>
  \<open>handleFileChange\<close> stores the files before the \<open>await\<close> and the previews after it: the
  state rendered while the first selection of one picture waits for its thumbnail has one
  file and no preview.
\<close>

lemma lists_unaligned_while_suspended:
  "reachable selecting_one \<and>
   length (files selecting_one) \<noteq> length (filePreviews selecting_one)"
  using reachable_selecting_one
  by (simp add: selecting_one_def handleFileChange_def init_state_def)

subsection \<open>After overlapping handlers have ended\<close>

lemma video_pending_eq:
  "video_pending =
     \<lparr>current = init_state\<lparr>files := [photo]\<rparr>,
      suspended = [[SetFilePreviews [''data:image/png;base64,AAAA'']]]\<rparr>"
  by (simp add: video_pending_def start_def init_config_def handleFileChange_def init_state_def
      generateThumbnail_def photo_def all_loaded_def enumerate_eq_zip)

lemma both_pending_eq:
  "both_pending =
     \<lparr>current = init_state\<lparr>files := [memo, memo]\<rparr>,
      suspended = [[SetFilePreviews [''data:image/png;base64,AAAA'']],
                   [SetFilePreviews ['''', '''']]]\<rparr>"
  by (simp add: both_pending_def video_pending_eq start_def handleFileChange_def init_state_def
      generateThumbnail_def memo_def enumerate_eq_zip)

lemma second_done_eq:
  "second_done =
     \<lparr>current = init_state\<lparr>files := [memo, memo], filePreviews := ['''', '''']\<rparr>,
      suspended = [[SetFilePreviews [''data:image/png;base64,AAAA'']]]\<rparr>"
  by (simp add: second_done_def both_pending_eq resume_def init_state_def)

lemma overlapped_eq:
  "overlapped =
     \<lparr>current = init_state\<lparr>files := [memo, memo],
                              filePreviews := [''data:image/png;base64,AAAA'']\<rparr>,
      suspended = []\<rparr>"
  by (simp add: overlapped_def second_done_eq resume_def init_state_def)

lemma runs_video_pending: "runs video_pending"
proof -
  have "enabled (Select [photo] all_loaded) (current init_config)"
    by (simp add: init_config_def init_state_def)
  from runs_action [OF runs_init this] show ?thesis
    by (simp add: video_pending_def init_config_def)
qed

lemma runs_both_pending: "runs both_pending"
proof -
  have "enabled (Select [memo, memo] all_loaded) (current video_pending)"
    by (simp add: video_pending_eq init_state_def)
  from runs_action [OF runs_video_pending this] show ?thesis
    by (simp add: both_pending_def)
qed

lemma runs_second_done: "runs second_done"
proof -
  have "1 < length (suspended both_pending)"
    by (simp add: both_pending_eq)
  from runs_resume [OF runs_both_pending this] show ?thesis
    by (simp add: second_done_def)
qed

lemma runs_overlapped: "runs overlapped"
proof -
  have "0 < length (suspended second_done)"
    by (simp add: second_done_eq)
  from runs_resume [OF runs_second_done this] show ?thesis
    by (simp add: overlapped_def)
qed

text \<open>
  C2 says that the selected-files list and the previews list have the same length in
  every reachable state. The code does not keep this. A video is selected, and while its
  thumbnail is being made two text files are selected; the second handler stores the two
  files and two previews; then the video has loaded and the first handler goes on with
  \<open>setFilePreviews\<close> of its one thumbnail. No handler is suspended any more, and the
  component stays with two files and one preview, the video's thumbnail on the first
  text file.
\<close>

theorem overlapping_selections_misaligned:
  "runs overlapped \<and> suspended overlapped = [] \<and>
   files (current overlapped) = [memo, memo] \<and>
   filePreviews (current overlapped) = [''data:image/png;base64,AAAA''] \<and>
   length (files (current overlapped)) \<noteq> length (filePreviews (current overlapped))"
  using runs_overlapped by (simp add: overlapped_eq)

text \<open>
  The same with a removal in between: one text file is selected, then a video and a
  picture; while their thumbnails are being made, the tile of the old preview is removed,
  which removes the video from the files; then the selection handler goes on and stores
  two previews for the one file left.
\<close>

lemma one_selected_eq:
  "one_selected = init_state\<lparr>files := [memo], filePreviews := ['''']\<rparr>"
  by (simp add: one_selected_def handleFileChange_def run_def init_state_def
      generateThumbnail_def memo_def enumerate_eq_zip)

lemma pair_pending_eq:
  "pair_pending =
     \<lparr>current = init_state\<lparr>files := [photo, picture], filePreviews := ['''']\<rparr>,
      suspended = [[SetFilePreviews [''data:image/png;base64,AAAA'',
                                     ''data:image/png;base64,AAAA'']]]\<rparr>"
  by (simp add: pair_pending_def one_selected_eq start_def handleFileChange_def init_state_def
      generateThumbnail_def photo_def picture_def all_loaded_def enumerate_eq_zip)

lemma removed_meanwhile_eq:
  "removed_meanwhile =
     \<lparr>current = init_state\<lparr>files := [picture], filePreviews := []\<rparr>,
      suspended = [[SetFilePreviews [''data:image/png;base64,AAAA'',
                                     ''data:image/png;base64,AAAA'']]]\<rparr>"
  by (simp add: removed_meanwhile_def pair_pending_eq start_def removeFile_def filter_index_def
      init_state_def enumerate_eq_zip)

lemma removal_overlapped_eq:
  "removal_overlapped =
     \<lparr>current = init_state\<lparr>files := [picture],
          filePreviews := [''data:image/png;base64,AAAA'', ''data:image/png;base64,AAAA'']\<rparr>,
      suspended = []\<rparr>"
  by (simp add: removal_overlapped_def removed_meanwhile_eq resume_def init_state_def)

lemma runs_pair_pending: "runs pair_pending"
proof -
  have s: "runs \<lparr>current = one_selected, suspended = []\<rparr>"
    using settled_one_selected by (rule settled_runs)
  have "enabled (Select [photo, picture] all_loaded) one_selected"
    by (simp add: one_selected_eq init_state_def)
  with runs_action [OF s, of "Select [photo, picture] all_loaded"] show ?thesis
    by (simp add: pair_pending_def)
qed

lemma runs_removed_meanwhile: "runs removed_meanwhile"
proof -
  have "enabled (Remove 0) (current pair_pending)"
    by (simp add: pair_pending_eq init_state_def)
  from runs_action [OF runs_pair_pending this] show ?thesis
    by (simp add: removed_meanwhile_def)
qed

lemma runs_removal_overlapped: "runs removal_overlapped"
proof -
  have "0 < length (suspended removed_meanwhile)"
    by (simp add: removed_meanwhile_eq)
  from runs_resume [OF runs_removed_meanwhile this] show ?thesis
    by (simp add: removal_overlapped_def)
qed

lemma removal_overlapped_misaligned:
  "runs removal_overlapped \<and> suspended removal_overlapped = [] \<and>
   files (current removal_overlapped) = [picture] \<and>
   length (filePreviews (current removal_overlapped)) = 2"
  using runs_removal_overlapped by (simp add: removal_overlapped_eq)

end
